theory Spec2Isabelle
  imports Main "HOL-Library.Word"
begin

section \<open>Go values\<close>

text \<open>
  Go's \<^verbatim>\<open>int\<close> is a 64-bit two's complement integer on the 64-bit platforms the
  builder is built for: \<open>+\<close> wraps around and \<open>sint\<close> reads the signed value.
  A \<^verbatim>\<open>time.Time\<close> is an integer instant, the zero time being \<open>0\<close>.
\<close>

type_synonym go_int = "64 word"
type_synonym Time = int

text \<open>
  A \<^verbatim>\<open>map[string]string\<close> is the list of its entries, keys distinct, in the order in
  which a \<^verbatim>\<open>range\<close> statement of this run yields them: the Go runtime chooses that
  order afresh for every loop, so every ordering of the same entries is a possible value.
  \<open>len_map\<close> is \<^verbatim>\<open>len(m)\<close>; \<open>index_map m k\<close> is \<^verbatim>\<open>m[k]\<close>, which reads the zero
  value \<^verbatim>\<open>""\<close> at an absent key. A nil map is the empty list (the code only reads
  these maps).
\<close>

type_synonym gomap = "(string \<times> string) list"

definition len_map :: "gomap \<Rightarrow> nat" where
  "len_map m = length m"

definition index_map :: "gomap \<Rightarrow> string \<Rightarrow> string" where
  "index_map m k = (case map_of m k of None \<Rightarrow> [] | Some v \<Rightarrow> v)"

section \<open>The state document (builder/state/state.go)\<close>

type_synonym BuildStatus = string
type_synonym Status = string

abbreviation (input) BuildStatusPending :: BuildStatus where "BuildStatusPending \<equiv> ''pending''"
abbreviation (input) BuildStatusCreating :: BuildStatus where "BuildStatusCreating \<equiv> ''creating''"
abbreviation (input) BuildStatusProvisioning :: BuildStatus where "BuildStatusProvisioning \<equiv> ''provisioning''"
abbreviation (input) BuildStatusPostProcessing :: BuildStatus where "BuildStatusPostProcessing \<equiv> ''post_processing''"
abbreviation (input) BuildStatusComplete :: BuildStatus where "BuildStatusComplete \<equiv> ''complete''"
abbreviation (input) BuildStatusFailed :: BuildStatus where "BuildStatusFailed \<equiv> ''failed''"

abbreviation (input) StatusPending :: Status where "StatusPending \<equiv> ''pending''"
abbreviation (input) StatusRunning :: Status where "StatusRunning \<equiv> ''running''"
abbreviation (input) StatusComplete :: Status where "StatusComplete \<equiv> ''complete''"
abbreviation (input) StatusFailed :: Status where "StatusFailed \<equiv> ''failed''"
abbreviation (input) StatusSkipped :: Status where "StatusSkipped \<equiv> ''skipped''"

text \<open>
  The records keep the fields of the Go structs. The open \<^verbatim>\<open>map[string]interface{}\<close>
  metadata of instances and artifacts is left out: no function modelled here reads or
  writes it.
\<close>

record TemplateState =
  Path :: string
  Hash :: string
  Variables :: gomap
  Files :: gomap

record Instance =
  ID :: string
  BuilderID :: string
  Provider :: string
  Region :: string
  PublicIP :: string
  PrivateIP :: string
  SSHUser :: string
  SSHPort :: go_int
  SSHKeyPath :: string
  WinRMUser :: string
  WinRMPort :: go_int
  CreatedAt :: Time
  KeepOnFailure :: bool

record ProvisionerState =
  Type :: string
  Name :: string
  Status :: Status
  Error :: string
  StartedAt :: Time
  EndedAt :: Time

record PostProcessorState =
  Type :: string
  Name :: string
  Status :: Status
  Error :: string
  StartedAt :: Time
  EndedAt :: Time

record ArtifactState =
  ID :: string
  BuilderID :: string
  Type :: string
  Files :: "string list"
  Hash :: string

record RunInfo =
  StartedAt :: Time
  CompletedAt :: Time

record Build =
  Name :: string
  Type :: string
  Status :: BuildStatus
  Instance :: "Instance option"
  Provisioners :: "ProvisionerState list"
  PostProcess :: "PostProcessorState list"
  Artifacts :: "ArtifactState list"
  Error :: string
  StartedAt :: Time
  CompletedAt :: Time

text \<open>
  \<open>Builds\<close> is \<open>None\<close> for a nil map (a decoded file without a \<^verbatim>\<open>builds\<close> key) and
  \<open>Some\<close> of the map otherwise: reading a nil map is allowed, assigning into it panics.
  The mutex \<^verbatim>\<open>mu\<close> has no counterpart: one call runs at a time.
\<close>

record State =
  Version :: go_int
  Serial :: go_int
  Lineage :: string
  BuilderVersion :: string
  PackerVersion :: string
  Template :: TemplateState
  Builds :: "(string \<rightharpoonup> Build) option"
  LastRun :: "RunInfo option"
  filePath :: string

record Lock =
  ID :: string
  Operation :: string
  Who :: string
  Created :: Time
  Path :: string

section \<open>Errors\<close>

text \<open>
  The Go code returns \<^verbatim>\<open>fmt.Errorf\<close> values; one constructor stands for each message.
  In the taxonomy of the specification \<open>ErrDecodeState\<close> is CorruptState,
  \<open>ErrLocked\<close>, \<open>ErrLockedBy\<close> and \<open>ErrLockedUnknown\<close> are AlreadyLocked,
  \<open>ErrLockStolen\<close> is LockStolen, \<open>ErrNoStateLoaded\<close> and \<open>ErrStateNotLoaded\<close> are
  NoSession, \<open>ErrEngine\<close> is EngineError and the others are IoError.
\<close>

datatype error =
    ErrOpenState
  | ErrDecodeState
  | ErrCreateStateDir
  | ErrCreateTemp
  | ErrEncode
  | ErrCloseTemp
  | ErrRename
  | ErrReadExistingLock
  | ErrLocked string string string Time
  | ErrLockedBy string string
  | ErrLockedUnknown
  | ErrCreateLockDir
  | ErrCreateLockFile
  | ErrWriteLock
  | ErrCloseLock
  | ErrReadLockBeforeUnlock
  | ErrLockStolen string string
  | ErrRemoveLock
  | ErrForceUnlock
  | ErrLockState error
  | ErrNoStateLoaded
  | ErrStateNotLoaded
  | ErrSaveInitial error
  | ErrResumeNotImplemented
  | ErrEngine string
  | PanicNilMap
  | PanicNilPointer

section \<open>The file system\<close>

text \<open>
  A file holds bytes, and the code only ever hands them to \<^verbatim>\<open>encoding/json\<close>. A body is
  therefore what the decoder makes of the bytes: \<open>Malformed\<close> bytes are those it rejects
  (empty content, truncated JSON, null bytes), \<open>StateDoc\<close> is the encoding of a state
  document and \<open>LockDoc\<close> the encoding of a lock record. The field \<open>filePath\<close> is not
  part of the encoding (\<^verbatim>\<open>json:"-"\<close>); it is empty in a stored document.

  The decoder ignores object keys that the target struct does not have, and the top-level
  keys of the two documents are disjoint: decoding a lock record as a state document, or
  the other way round, succeeds with the zero value.
\<close>

datatype body = Malformed string | StateDoc State | LockDoc Lock

datatype oserr = NotExist | Exist | IOFault | SyntaxError

datatype op = OpOpen | OpRead | OpReadFile | OpStat | OpMkdir | OpCreate
  | OpOpenExcl | OpWrite | OpClose | OpRename | OpRemove

text \<open>
  The surroundings of a call. \<open>files\<close> is the content of the regular files on the disk
  and \<open>dirs\<close> the directories that exist. \<open>deny\<close> holds the system calls that the
  operating system refuses, each with the path it is refused on (permissions, a full or
  failing disk); such a call fails with an error other than "does not exist".
  \<open>encode\<close> is \<^verbatim>\<open>encoding/json\<close> on a state document: \<open>None\<close> when the encoder
  rejects the document's data (a time outside the years 0 to 9999, a metadata value
  without a JSON form), and otherwise the bytes it produces, as a body; they need not
  decode to the same document (invalid UTF-8 in a string is replaced).
  \<open>torn\<close> is what a write that fails leaves in the file of the bytes it was given:
  nothing, a part of them, or all.
\<close>

record env =
  files :: "string \<rightharpoonup> body"
  dirs :: "string set"
  deny :: "(op \<times> string) set"
  encode :: "State \<Rightarrow> body option"
  torn :: "body \<Rightarrow> body"

definition zero_TemplateState :: TemplateState where
  "zero_TemplateState = \<lparr>TemplateState.Path = [], Hash = [], Variables = [], Files = []\<rparr>"

definition zero_State :: State where
  "zero_State = \<lparr>Version = 0, Serial = 0, Lineage = [], BuilderVersion = [],
     PackerVersion = [], Template = zero_TemplateState, Builds = None, LastRun = None,
     filePath = []\<rparr>"

definition zero_Lock :: Lock where
  "zero_Lock = \<lparr>Lock.ID = [], Operation = [], Who = [], Created = 0, Path = []\<rparr>"

fun decode_State :: "body \<Rightarrow> State option" where
  "decode_State (Malformed bs) = None"
| "decode_State (StateDoc st) = Some st"
| "decode_State (LockDoc l) = Some zero_State"

fun decode_Lock :: "body \<Rightarrow> Lock option" where
  "decode_Lock (Malformed bs) = None"
| "decode_Lock (LockDoc l) = Some l"
| "decode_Lock (StateDoc st) = Some zero_Lock"

text \<open>\<^verbatim>\<open>os.Remove\<close>: the new disk and the error, if any.\<close>

definition os_Remove :: "env \<Rightarrow> string \<Rightarrow> oserr option \<times> env" where
  "os_Remove e p =
     (if (OpRemove, p) \<in> deny e then (Some IOFault, e)
      else if files e p = None then (Some NotExist, e)
      else (None, e\<lparr>files := (files e)(p := None)\<rparr>))"

definition os_Stat :: "env \<Rightarrow> string \<Rightarrow> oserr option" where
  "os_Stat e p =
     (if (OpStat, p) \<in> deny e then Some IOFault
      else if files e p = None then Some NotExist
      else None)"

text \<open>
  \<^verbatim>\<open>filepath.Dir\<close> on a path in clean form: everything before the last separator,
  \<^verbatim>\<open>"."\<close> when there is none and \<^verbatim>\<open>"/"\<close> for a file in the root directory.
\<close>

definition filepath_Dir :: "string \<Rightarrow> string" where
  "filepath_Dir p =
     (let upto = rev (dropWhile (\<lambda>c. c \<noteq> CHR ''/'') (rev p));
          d = rev (dropWhile (\<lambda>c. c = CHR ''/'') (rev upto))
      in if upto = [] then ''.'' else if d = [] then ''/'' else d)"

text \<open>
  \<^verbatim>\<open>os.MkdirAll\<close>. \<open>dir_chain d\<close> lists the directory \<open>d\<close> and the directories
  above it, outermost first. \<^verbatim>\<open>MkdirAll\<close> creates those that do not exist, in this
  order, and stops at the first one whose creation is refused: the directories created
  up to there remain.
\<close>

definition dir_chain :: "string \<Rightarrow> string list" where
  "dir_chain d =
     map (\<lambda>i. take i d)
       (filter (\<lambda>i. i = length d \<or> d ! i = CHR ''/'') [1..<Suc (length d)])"

fun mkdir_chain :: "env \<Rightarrow> string list \<Rightarrow> oserr option \<times> env" where
  "mkdir_chain e [] = (None, e)"
| "mkdir_chain e (d # ds) =
     (if d \<in> dirs e then mkdir_chain e ds
      else if (OpMkdir, d) \<in> deny e then (Some IOFault, e)
      else mkdir_chain (e\<lparr>dirs := insert d (dirs e)\<rparr>) ds)"

definition os_MkdirAll :: "env \<Rightarrow> string \<Rightarrow> oserr option \<times> env" where
  "os_MkdirAll e d = mkdir_chain e (dir_chain d)"

section \<open>Store operations (builder/state/state.go)\<close>

text \<open>\<^verbatim>\<open>New\<close>; the lineage is the UUID that \<^verbatim>\<open>uuid.New()\<close> mints.\<close>

definition New :: "string \<Rightarrow> string \<Rightarrow> State" where
  "New templatePath uuid =
     \<lparr>Version = 1, Serial = 1, Lineage = uuid, BuilderVersion = [], PackerVersion = [],
      Template = \<lparr>TemplateState.Path = templatePath, Hash = [], Variables = [], Files = []\<rparr>,
      Builds = Some Map.empty, LastRun = None, filePath = []\<rparr>"

text \<open>
  \<^verbatim>\<open>Load\<close>: \<open>Inr None\<close> is the pair \<^verbatim>\<open>(nil, nil)\<close> returned when no file exists.
  Nothing in the function looks at the decoded \<open>Version\<close>.
\<close>

definition Load :: "string \<Rightarrow> env \<Rightarrow> error + State option" where
  "Load path e =
     (if (OpOpen, path) \<in> deny e then Inl ErrOpenState
      else case files e path of
        None \<Rightarrow> Inr None
      | Some b \<Rightarrow>
          if (OpRead, path) \<in> deny e then Inl ErrDecodeState
          else (case decode_State b of
                  None \<Rightarrow> Inl ErrDecodeState
                | Some st \<Rightarrow> Inr (Some (st\<lparr>filePath := path\<rparr>))))"

text \<open>
  \<^verbatim>\<open>Save\<close> returns the error (if any), the document as the call leaves it in memory and
  the surroundings. The first statement, \<^verbatim>\<open>s.Serial++\<close>, comes before every check.
  \<^verbatim>\<open>os.Create\<close> leaves an empty temporary file. \<^verbatim>\<open>encoder.Encode\<close> builds the
  bytes first and fails, with nothing written, when the document's data cannot be
  encoded; then it writes, and fails when the write is refused, which may leave a part
  of the bytes in the file. The results of
  \<^verbatim>\<open>os.Remove\<close> on the failure paths are dropped, as in the source. A rename that
  succeeds moves the temporary file onto the state path.
\<close>

definition Save :: "State \<Rightarrow> string \<Rightarrow> env \<Rightarrow> error option \<times> State \<times> env" where
  "Save s path e =
     (let s1 = s\<lparr>Serial := Serial s + 1, filePath := path\<rparr>;
          dir = filepath_Dir path;
          tmpPath = path @ ''.tmp''
      in case os_MkdirAll e dir of
           (Some err, e0) \<Rightarrow> (Some ErrCreateStateDir, s1, e0)
         | (None, e0) \<Rightarrow>
             if (OpCreate, tmpPath) \<in> deny e0 then (Some ErrCreateTemp, s1, e0)
             else
               let e1 = e0\<lparr>files := (files e0)(tmpPath \<mapsto> Malformed [])\<rparr>
               in case encode e1 s1 of
                    None \<Rightarrow> (Some ErrEncode, s1, snd (os_Remove e1 tmpPath))
                  | Some bytes \<Rightarrow>
                      if (OpWrite, tmpPath) \<in> deny e1
                      then (Some ErrEncode, s1,
                            snd (os_Remove
                                   (e1\<lparr>files := (files e1)(tmpPath \<mapsto> torn e1 bytes)\<rparr>)
                                   tmpPath))
                      else
                        let e2 = e1\<lparr>files := (files e1)(tmpPath \<mapsto> bytes)\<rparr>
                        in if (OpClose, tmpPath) \<in> deny e2
                           then (Some ErrCloseTemp, s1, snd (os_Remove e2 tmpPath))
                           else if (OpRename, tmpPath) \<in> deny e2
                           then (Some ErrRename, s1, snd (os_Remove e2 tmpPath))
                           else (None, s1,
                                 e2\<lparr>files := (files e2)(path := files e2 tmpPath,
                                                         tmpPath := None)\<rparr>))"

definition GetBuild :: "State \<Rightarrow> string \<Rightarrow> Build option" where
  "GetBuild s name = (case Builds s of None \<Rightarrow> None | Some bm \<Rightarrow> bm name)"

definition SetBuild :: "State \<Rightarrow> string \<Rightarrow> Build \<Rightarrow> error + State" where
  "SetBuild s name build =
     (case Builds s of
        None \<Rightarrow> Inl PanicNilMap
      | Some bm \<Rightarrow> Inr (s\<lparr>Builds := Some (bm(name \<mapsto> build))\<rparr>))"

definition RemoveBuild :: "State \<Rightarrow> string \<Rightarrow> State" where
  "RemoveBuild s name =
     (case Builds s of
        None \<Rightarrow> s
      | Some bm \<Rightarrow> s\<lparr>Builds := Some (bm(name := None))\<rparr>)"

text \<open>
  \<^verbatim>\<open>ComputeFingerprint\<close>. \<open>write_entries h m\<close> is the content of the hasher after the
  loop \<^verbatim>\<open>for k, v := range m { io.WriteString(h, k); io.WriteString(h, v) }\<close>:
  the entries are written in the order the \<^verbatim>\<open>range\<close> yields them; the code does not
  sort. \<open>fingerprint_input\<close> is everything written to the hasher. SHA-256 itself belongs
  to the Go library and is the parameter \<open>sha256\<close>, from the bytes hashed to the digest.
\<close>

fun write_entries :: "string \<Rightarrow> gomap \<Rightarrow> string" where
  "write_entries h [] = h"
| "write_entries h ((k, v) # kvs) = write_entries ((h @ k) @ v) kvs"

definition fingerprint_input :: "State \<Rightarrow> string" where
  "fingerprint_input s =
     write_entries
       (write_entries (TemplateState.Hash (Template s)) (Variables (Template s)))
       (TemplateState.Files (Template s))"

definition hex_digit :: "nat \<Rightarrow> char" where
  "hex_digit n = ''0123456789abcdef'' ! (n mod 16)"

definition hex :: "string \<Rightarrow> string" where
  "hex bs = concat (map (\<lambda>c. [hex_digit (of_char c div 16), hex_digit (of_char c mod 16)]) bs)"

definition ComputeFingerprint :: "(string \<Rightarrow> string) \<Rightarrow> State \<Rightarrow> string" where
  "ComputeFingerprint sha256 s = ''sha256:'' @ hex (sha256 (fingerprint_input s))"

definition IsComplete :: "Build \<Rightarrow> bool" where
  "IsComplete b = (Build.Status b = BuildStatusComplete)"

definition HasInstance :: "Build \<Rightarrow> bool" where
  "HasInstance b =
     (case Instance b of None \<Rightarrow> False | Some i \<Rightarrow> Instance.ID i \<noteq> [])"

definition ProvisionerComplete :: "Build \<Rightarrow> nat \<Rightarrow> bool" where
  "ProvisionerComplete b index =
     (if index \<ge> length (Provisioners b) then False
      else ProvisionerState.Status (Provisioners b ! index) = StatusComplete)"

text \<open>
  \<^verbatim>\<open>NextPendingProvisioner\<close>: \<open>scan_provisioners ps i\<close> is the \<^verbatim>\<open>range\<close> loop with
  its index at \<open>i\<close>.
\<close>

function scan_provisioners :: "ProvisionerState list \<Rightarrow> nat \<Rightarrow> nat" where
  "scan_provisioners ps i =
     (if i < length ps
      then (if ProvisionerState.Status (ps ! i) = StatusPending
               \<or> ProvisionerState.Status (ps ! i) = StatusFailed
            then i
            else scan_provisioners ps (Suc i))
      else length ps)"
  by pat_completeness auto
termination
  by (relation "measure (\<lambda>(ps, i). length ps - i)") auto

declare scan_provisioners.simps [simp del]

definition NextPendingProvisioner :: "Build \<Rightarrow> nat" where
  "NextPendingProvisioner b = scan_provisioners (Provisioners b) 0"

section \<open>The lock (LockManager)\<close>

record LockManager =
  statePath :: string
  lockPath :: string
  lock :: "Lock option"

definition NewLockManager :: "string \<Rightarrow> LockManager" where
  "NewLockManager sp = \<lparr>statePath = sp, lockPath = sp @ ''.lock'', lock = None\<rparr>"

definition readLock :: "LockManager \<Rightarrow> env \<Rightarrow> oserr + Lock" where
  "readLock lm e =
     (if (OpReadFile, lockPath lm) \<in> deny e then Inl IOFault
      else case files e (lockPath lm) of
        None \<Rightarrow> Inl NotExist
      | Some b \<Rightarrow> (case decode_Lock b of None \<Rightarrow> Inl SyntaxError | Some l \<Rightarrow> Inr l))"

text \<open>
  What \<^verbatim>\<open>Lock\<close> takes from its surroundings: the UUID minted for the lock, the
  \<^verbatim>\<open>USER\<close> variable, the host name and the clock.
\<close>

record lock_inputs =
  new_uuid :: string
  user :: string
  hostname :: string
  now :: Time

definition Lock :: "LockManager \<Rightarrow> string \<Rightarrow> lock_inputs \<Rightarrow> env
    \<Rightarrow> error option \<times> LockManager \<times> env" where
  "Lock lm operation inp e =
     (if os_Stat e (lockPath lm) = None
      then (case readLock lm e of
              Inl err \<Rightarrow> (Some ErrReadExistingLock, lm, e)
            | Inr existingLock \<Rightarrow>
                (Some (ErrLocked (Who existingLock) (Lock.ID existingLock)
                         (Operation existingLock) (Created existingLock)), lm, e))
      else
        let host = (if hostname inp = [] then ''unknown'' else hostname inp);
            l = \<lparr>Lock.ID = new_uuid inp, Operation = operation,
                 Who = user inp @ ''@'' @ host, Created = now inp, Path = statePath lm\<rparr>;
            dir = filepath_Dir (lockPath lm)
        in case os_MkdirAll e dir of
             (Some err, e0) \<Rightarrow> (Some ErrCreateLockDir, lm, e0)
           | (None, e0) \<Rightarrow>
               if (OpOpenExcl, lockPath lm) \<in> deny e0 then (Some ErrCreateLockFile, lm, e0)
               else if files e0 (lockPath lm) \<noteq> None
               then (case readLock lm e0 of
                       Inr existingLock \<Rightarrow>
                         (Some (ErrLockedBy (Who existingLock) (Lock.ID existingLock)), lm, e0)
                     | Inl err \<Rightarrow> (Some ErrLockedUnknown, lm, e0))
               else
                 let e1 = e0\<lparr>files := (files e0)(lockPath lm \<mapsto> Malformed [])\<rparr>
                 in if (OpWrite, lockPath lm) \<in> deny e1
                    then (Some ErrWriteLock, lm,
                          snd (os_Remove
                                 (e1\<lparr>files := (files e1)(lockPath lm \<mapsto> torn e1 (LockDoc l))\<rparr>)
                                 (lockPath lm)))
                    else
                      let e2 = e1\<lparr>files := (files e1)(lockPath lm \<mapsto> LockDoc l)\<rparr>
                      in if (OpClose, lockPath lm) \<in> deny e2
                         then (Some ErrCloseLock, lm, snd (os_Remove e2 (lockPath lm)))
                         else (None, lm\<lparr>lock := Some l\<rparr>, e2))"

definition Unlock :: "LockManager \<Rightarrow> env \<Rightarrow> error option \<times> LockManager \<times> env" where
  "Unlock lm e =
     (case lock lm of
        None \<Rightarrow> (None, lm, e)
      | Some held \<Rightarrow>
          (case readLock lm e of
             Inl err \<Rightarrow> (Some ErrReadLockBeforeUnlock, lm, e)
           | Inr existingLock \<Rightarrow>
               if Lock.ID existingLock \<noteq> Lock.ID held
               then (Some (ErrLockStolen (Who existingLock) (Lock.ID existingLock)), lm, e)
               else (case os_Remove e (lockPath lm) of
                       (Some err, e') \<Rightarrow>
                         if err \<noteq> NotExist then (Some ErrRemoveLock, lm, e')
                         else (None, lm\<lparr>lock := None\<rparr>, e')
                     | (None, e') \<Rightarrow> (None, lm\<lparr>lock := None\<rparr>, e'))))"

definition ForceUnlock :: "LockManager \<Rightarrow> env \<Rightarrow> error option \<times> LockManager \<times> env" where
  "ForceUnlock lm e =
     (case os_Remove e (lockPath lm) of
        (Some err, e') \<Rightarrow>
          if err \<noteq> NotExist then (Some ErrForceUnlock, lm, e')
          else (None, lm\<lparr>lock := None\<rparr>, e')
      | (None, e') \<Rightarrow> (None, lm\<lparr>lock := None\<rparr>, e'))"

section \<open>The manager (builder/state/manager.go)\<close>

record Manager =
  statePath :: string
  lockManager :: LockManager
  state :: "State option"

definition NewManager :: "string \<Rightarrow> Manager" where
  "NewManager sp = \<lparr>Manager.statePath = sp, lockManager = NewLockManager sp, state = None\<rparr>"

text \<open>
  \<^verbatim>\<open>Manager.Load\<close>; \<open>lineage\<close> is the UUID that \<^verbatim>\<open>New\<close> would mint. The result of the
  \<^verbatim>\<open>Unlock\<close> on the failure path is dropped, as in the source.
\<close>

definition Manager_Load :: "Manager \<Rightarrow> lock_inputs \<Rightarrow> string \<Rightarrow> env
    \<Rightarrow> (error + State) \<times> Manager \<times> env" where
  "Manager_Load m inp lineage e =
     (case Lock (lockManager m) ''build'' inp e of
        (Some err, lm1, e1) \<Rightarrow> (Inl (ErrLockState err), m\<lparr>lockManager := lm1\<rparr>, e1)
      | (None, lm1, e1) \<Rightarrow>
          (case Load (Manager.statePath m) e1 of
             Inl err \<Rightarrow>
               (case Unlock lm1 e1 of
                  (r, lm2, e2) \<Rightarrow> (Inl err, m\<lparr>lockManager := lm2\<rparr>, e2))
           | Inr loaded \<Rightarrow>
               let st = (case loaded of
                           None \<Rightarrow> New (Manager.statePath m) lineage
                         | Some st0 \<Rightarrow> st0)
               in (Inr st, m\<lparr>lockManager := lm1, state := Some st\<rparr>, e1)))"

definition Manager_Save :: "Manager \<Rightarrow> env \<Rightarrow> error option \<times> Manager \<times> env" where
  "Manager_Save m e =
     (case state m of
        None \<Rightarrow> (Some ErrNoStateLoaded, m, e)
      | Some st \<Rightarrow>
          (case Save st (Manager.statePath m) e of
             (r, st', e') \<Rightarrow> (r, m\<lparr>state := Some st'\<rparr>, e')))"

definition Manager_Unlock :: "Manager \<Rightarrow> env \<Rightarrow> error option \<times> Manager \<times> env" where
  "Manager_Unlock m e =
     (case Unlock (lockManager m) e of
        (r, lm', e') \<Rightarrow> (r, m\<lparr>lockManager := lm'\<rparr>, e'))"

definition Manager_Close :: "Manager \<Rightarrow> env \<Rightarrow> error option \<times> Manager \<times> env" where
  "Manager_Close m e =
     (if state m \<noteq> None
      then (case Manager_Save m e of
              (Some err, m', e') \<Rightarrow> (Some err, m', e')
            | (None, m', e') \<Rightarrow> Manager_Unlock m' e')
      else Manager_Unlock m e)"

text \<open>
  \<^verbatim>\<open>InputsChanged\<close>. \<open>range_differs stored given\<close> is the loop
  \<^verbatim>\<open>for k, v := range given { if stored[k] != v { return true } }\<close>: it is \<open>True\<close>
  when the loop returns and \<open>False\<close> when it runs to its end.
\<close>

fun range_differs :: "gomap \<Rightarrow> gomap \<Rightarrow> bool" where
  "range_differs stored [] = False"
| "range_differs stored ((k, v) # kvs) =
     (if index_map stored k \<noteq> v then True else range_differs stored kvs)"

definition InputsChanged :: "Manager \<Rightarrow> string \<Rightarrow> gomap \<Rightarrow> gomap \<Rightarrow> bool" where
  "InputsChanged m templateHash variables fls =
     (case state m of
        None \<Rightarrow> True
      | Some st \<Rightarrow>
          if TemplateState.Hash (Template st) \<noteq> templateHash then True
          else if len_map (Variables (Template st)) \<noteq> len_map variables then True
          else if range_differs (Variables (Template st)) variables then True
          else if len_map (TemplateState.Files (Template st)) \<noteq> len_map fls then True
          else if range_differs (TemplateState.Files (Template st)) fls then True
          else False)"

definition UpdateTemplateInputs :: "Manager \<Rightarrow> string \<Rightarrow> string \<Rightarrow> gomap \<Rightarrow> gomap \<Rightarrow> Manager" where
  "UpdateTemplateInputs m templatePath templateHash variables fls =
     (case state m of
        None \<Rightarrow> m
      | Some st \<Rightarrow>
          m\<lparr>state := Some (st\<lparr>Template :=
               \<lparr>TemplateState.Path = templatePath, Hash = templateHash,
                Variables = variables, Files = fls\<rparr>\<rparr>)\<rparr>)"

section \<open>The build wrapper (builder/wrapper/build.go)\<close>

text \<open>
  An artifact is either one that the engine returned or a \<^verbatim>\<open>CachedArtifact\<close> rebuilt
  from the state; both carry an id, a builder id and a file list.
\<close>

datatype Artifact =
    EngineArtifact string string "string list"
  | CachedArtifact string string "string list"

fun Id :: "Artifact \<Rightarrow> string" where
  "Id (EngineArtifact i b fs) = i"
| "Id (CachedArtifact i b fs) = i"

fun BuilderId :: "Artifact \<Rightarrow> string" where
  "BuilderId (EngineArtifact i b fs) = b"
| "BuilderId (CachedArtifact i b fs) = b"

fun Files_of :: "Artifact \<Rightarrow> string list" where
  "Files_of (EngineArtifact i b fs) = fs"
| "Files_of (CachedArtifact i b fs) = fs"

text \<open>
  The engine's build: its name, its builder type, the type label of each provisioner and
  \<open>RunResult\<close>, what \<^verbatim>\<open>CoreBuild.Run\<close> returns when it is called (an error message or
  the artifacts).
\<close>

record CoreBuild =
  BuildName :: string
  BuilderType :: string
  Provisioners :: "string list"
  RunResult :: "string + Artifact list"

record StatefulBuild =
  inner :: CoreBuild
  buildName :: string

definition NewStatefulBuild :: "CoreBuild \<Rightarrow> StatefulBuild" where
  "NewStatefulBuild coreBuild = \<lparr>inner = coreBuild, buildName = BuildName coreBuild\<rparr>"

definition inputsChangedSinceLastBuild :: "StatefulBuild \<Rightarrow> bool" where
  "inputsChangedSinceLastBuild sb = False"

definition loadArtifactsFromState :: "Build \<Rightarrow> error + Artifact list" where
  "loadArtifactsFromState buildState =
     Inr (map (\<lambda>artState. CachedArtifact (ArtifactState.ID artState)
                 (ArtifactState.BuilderID artState) (ArtifactState.Files artState))
            (Artifacts buildState))"

definition artifactsToState :: "Artifact list \<Rightarrow> ArtifactState list" where
  "artifactsToState artifacts =
     map (\<lambda>art. \<lparr>ArtifactState.ID = Id art, BuilderID = BuilderId art, Type = [],
                 Files = Files_of art, Hash = []\<rparr>) artifacts"

definition resumeBuild :: "StatefulBuild \<Rightarrow> Build \<Rightarrow> error + Artifact list" where
  "resumeBuild sb buildState = Inl ErrResumeNotImplemented"

text \<open>
  \<^verbatim>\<open>buildState\<close> is a pointer, and from the first \<^verbatim>\<open>SetBuild\<close> on it is the pointer
  stored in the \<open>Builds\<close> map under the build's name: an assignment to one of its fields
  changes the document in the manager. \<open>through\<close> writes the changed record back under
  that name.
\<close>

definition through :: "Manager \<Rightarrow> string \<Rightarrow> Build \<Rightarrow> Manager" where
  "through m name b =
     (case state m of
        None \<Rightarrow> m
      | Some st \<Rightarrow>
          (case Builds st of
             None \<Rightarrow> m
           | Some bm \<Rightarrow> m\<lparr>state := Some (st\<lparr>Builds := Some (bm(name \<mapsto> b))\<rparr>)\<rparr>))"

definition Manager_SetBuild :: "Manager \<Rightarrow> string \<Rightarrow> Build \<Rightarrow> error + Manager" where
  "Manager_SetBuild m name b =
     (case state m of
        None \<Rightarrow> Inl PanicNilPointer
      | Some st \<Rightarrow>
          (case SetBuild st name b of
             Inl p \<Rightarrow> Inl p
           | Inr st' \<Rightarrow> Inr (m\<lparr>state := Some st'\<rparr>)))"

text \<open>
  \<^verbatim>\<open>runFreshBuild\<close>; \<open>t_done\<close> is the clock at completion. Messages to the UI and
  the log are not modelled. The results of the last two saves are dropped (the second is
  only logged), as in the source.
\<close>

definition runFreshBuild :: "StatefulBuild \<Rightarrow> Manager \<Rightarrow> Build \<Rightarrow> Time \<Rightarrow> env
    \<Rightarrow> (error + Artifact list) \<times> Manager \<times> env" where
  "runFreshBuild sb m buildState t_done e =
     (let b1 = buildState\<lparr>Build.Status := BuildStatusCreating\<rparr>;
          m1 = through m (buildName sb) b1
      in case Manager_Save m1 e of
           (Some err, m2, e2) \<Rightarrow> (Inl err, m2, e2)
         | (None, m2, e2) \<Rightarrow>
             (case RunResult (inner sb) of
                Inl msg \<Rightarrow>
                  let b2 = b1\<lparr>Build.Status := BuildStatusFailed, Build.Error := msg\<rparr>
                  in (case Manager_SetBuild (through m2 (buildName sb) b2) (buildName sb) b2 of
                        Inl p \<Rightarrow> (Inl p, m2, e2)
                      | Inr m3 \<Rightarrow>
                          (case Manager_Save m3 e2 of
                             (r, m4, e4) \<Rightarrow> (Inl (ErrEngine msg), m4, e4)))
              | Inr artifacts \<Rightarrow>
                  let b2 = b1\<lparr>Build.Status := BuildStatusComplete,
                              Build.CompletedAt := t_done,
                              Artifacts := artifactsToState artifacts\<rparr>
                  in (case Manager_SetBuild (through m2 (buildName sb) b2) (buildName sb) b2 of
                        Inl p \<Rightarrow> (Inl p, m2, e2)
                      | Inr m3 \<Rightarrow>
                          (case Manager_Save m3 e2 of
                             (r, m4, e4) \<Rightarrow> (Inr artifacts, m4, e4)))))"

text \<open>
  \<^verbatim>\<open>StatefulBuild.Run\<close>; \<open>t_start\<close> and \<open>t_done\<close> are the two readings of the clock.
  \<open>Run_build\<close> is the part of \<^verbatim>\<open>Run\<close> after the check for a complete build, entered
  with the value of \<^verbatim>\<open>buildState\<close> at that point (\<open>None\<close> for nil).
\<close>

definition Run_build :: "StatefulBuild \<Rightarrow> Manager \<Rightarrow> Build option \<Rightarrow> Time \<Rightarrow> Time \<Rightarrow> env
    \<Rightarrow> (error + Artifact list) \<times> Manager \<times> env" where
  "Run_build sb m buildState t_start t_done e =
     (let initialised =
        (case buildState of
           Some b \<Rightarrow> (Inr b, m, e)
         | None \<Rightarrow>
             let b = \<lparr>Build.Name = buildName sb,
                      Type = BuilderType (inner sb),
                      Status = BuildStatusPending,
                      Instance = None,
                      Provisioners =
                        map (\<lambda>ptype. \<lparr>ProvisionerState.Type = ptype, Name = [],
                               Status = StatusPending, Error = [],
                               StartedAt = 0, EndedAt = 0\<rparr>)
                          (CoreBuild.Provisioners (inner sb)),
                      PostProcess = [], Artifacts = [], Error = [],
                      StartedAt = t_start, CompletedAt = 0\<rparr>
             in (case Manager_SetBuild m (buildName sb) b of
                   Inl p \<Rightarrow> (Inl p, m, e)
                 | Inr m0 \<Rightarrow>
                     (case Manager_Save m0 e of
                        (Some err, m1, e1) \<Rightarrow> (Inl (ErrSaveInitial err), m1, e1)
                      | (None, m1, e1) \<Rightarrow> (Inr b, m1, e1))))
      in case initialised of
           (Inl err, m1, e1) \<Rightarrow> (Inl err, m1, e1)
         | (Inr b, m1, e1) \<Rightarrow>
             if HasInstance b
             then (case resumeBuild sb b of
                     Inl err \<Rightarrow>
                       let b' = b\<lparr>Instance := None, Build.Status := BuildStatusPending\<rparr>
                       in runFreshBuild sb (through m1 (buildName sb) b') b' t_done e1
                   | Inr artifacts \<Rightarrow> (Inr artifacts, m1, e1))
             else runFreshBuild sb m1 b t_done e1)"

definition Run :: "StatefulBuild \<Rightarrow> Manager \<Rightarrow> Time \<Rightarrow> Time \<Rightarrow> env
    \<Rightarrow> (error + Artifact list) \<times> Manager \<times> env" where
  "Run sb m t_start t_done e =
     (case state m of
        None \<Rightarrow> (Inl ErrStateNotLoaded, m, e)
      | Some st \<Rightarrow>
          (case GetBuild st (buildName sb) of
             None \<Rightarrow> Run_build sb m None t_start t_done e
           | Some b \<Rightarrow>
               if IsComplete b
               then (if \<not> inputsChangedSinceLastBuild sb
                     then (loadArtifactsFromState b, m, e)
                     else Run_build sb m None t_start t_done e)
               else Run_build sb m (Some b) t_start t_done e))"

text \<open>
  The saves of one session. Before each call of \<^verbatim>\<open>Save\<close> the surroundings may have
  changed (the function given for that call). The session goes on after a save that
  fails, as the callers do that drop its error: the two last saves of
  \<^verbatim>\<open>runFreshBuild\<close> and the \<^verbatim>\<open>Close\<close> that the build command defers. The result
  lists, for each call in order, its outcome and the serial it leaves in the document.
\<close>

fun save_session :: "(env \<Rightarrow> env) list \<Rightarrow> State \<Rightarrow> string \<Rightarrow> env
    \<Rightarrow> (error option \<times> go_int) list \<times> State \<times> env" where
  "save_session [] s path e = ([], s, e)"
| "save_session (w # ws) s path e =
     (case Save s path (w e) of
        (r, s', e') \<Rightarrow>
          (case save_session ws s' path e' of
             (rs, s'', e'') \<Rightarrow> ((r, Serial s') # rs, s'', e'')))"

section \<open>Documents, disks and builds used as examples\<close>

text \<open>A fresh document, as \<^verbatim>\<open>New\<close> creates it.\<close>

definition doc_new :: State where
  "doc_new = New ''template.pkr.hcl'' ''3f2a-lineage''"

text \<open>
  One template with the variables \<open>a = 1\<close> and \<open>b = 2\<close>, as two \<^verbatim>\<open>range\<close> loops
  may see it: first \<open>a\<close> then \<open>b\<close>, or first \<open>b\<close> then \<open>a\<close>.
\<close>

definition doc_ab :: State where
  "doc_ab = doc_new\<lparr>Template := \<lparr>TemplateState.Path = ''template.pkr.hcl'',
     Hash = ''sha256:00'', Variables = [(''a'', ''1''), (''b'', ''2'')], Files = []\<rparr>\<rparr>"

definition doc_ba :: State where
  "doc_ba = doc_new\<lparr>Template := \<lparr>TemplateState.Path = ''template.pkr.hcl'',
     Hash = ''sha256:00'', Variables = [(''b'', ''2''), (''a'', ''1'')], Files = []\<rparr>\<rparr>"

text \<open>A document of schema version 2, and one whose serial is the largest \<^verbatim>\<open>int\<close>.\<close>

definition doc_v2 :: State where
  "doc_v2 = doc_new\<lparr>Version := 2\<rparr>"

definition doc_max :: State where
  "doc_max = doc_new\<lparr>Serial := 0x7FFFFFFFFFFFFFFF\<rparr>"

text \<open>
  Two encoders: one that accepts every document and writes it as it is, and one that
  rejects the document's data.
\<close>

definition encode_as_is :: "State \<Rightarrow> body option" where
  "encode_as_is s = Some (StateDoc (s\<lparr>filePath := []\<rparr>))"

definition encode_rejects :: "State \<Rightarrow> body option" where
  "encode_rejects s = None"

text \<open>A failed write that leaves the file empty.\<close>

definition leaves_nothing :: "body \<Rightarrow> body" where
  "leaves_nothing bytes = Malformed []"

text \<open>
  Surroundings, all in the current directory: an empty disk; one with an empty file and a
  state file of version 2; one whose state file is not JSON; and disks that hold a saved
  state and refuse to rename the temporary file, refuse to rename and to remove it,
  refuse to create it where an earlier run has left one, or whose encoder rejects the
  document.
\<close>

definition disk_empty :: env where
  "disk_empty = \<lparr>files = Map.empty, dirs = {''.''}, deny = {}, encode = encode_as_is, torn = leaves_nothing\<rparr>"

definition disk_v2 :: env where
  "disk_v2 = \<lparr>files = [''empty.json'' \<mapsto> Malformed [], ''builder-state.json'' \<mapsto> StateDoc doc_v2],
     dirs = {''.''}, deny = {}, encode = encode_as_is, torn = leaves_nothing\<rparr>"

definition disk_corrupt :: env where
  "disk_corrupt = \<lparr>files = [''builder-state.json'' \<mapsto> Malformed ''{invalid json''],
     dirs = {''.''}, deny = {}, encode = encode_as_is, torn = leaves_nothing\<rparr>"

definition disk_saved :: env where
  "disk_saved = \<lparr>files = [''builder-state.json'' \<mapsto> StateDoc doc_new],
     dirs = {''.''}, deny = {}, encode = encode_as_is, torn = leaves_nothing\<rparr>"

definition disk_no_rename :: env where
  "disk_no_rename = disk_saved\<lparr>deny := {(OpRename, ''builder-state.json.tmp'')}\<rparr>"

definition disk_no_rename_no_remove :: env where
  "disk_no_rename_no_remove = disk_saved\<lparr>deny :=
     {(OpRename, ''builder-state.json.tmp''), (OpRemove, ''builder-state.json.tmp'')}\<rparr>"

definition disk_stale_tmp :: env where
  "disk_stale_tmp = disk_saved\<lparr>
     files := (files disk_saved)(''builder-state.json.tmp'' \<mapsto> Malformed ''{''),
     deny := {(OpCreate, ''builder-state.json.tmp'')}\<rparr>"

definition disk_unencodable :: env where
  "disk_unencodable = disk_saved\<lparr>encode := encode_rejects\<rparr>"

text \<open>
  The disk whose state file is not JSON, refusing to remove the lock file, and refusing
  to read it.
\<close>

definition disk_corrupt_no_remove :: env where
  "disk_corrupt_no_remove = disk_corrupt\<lparr>deny := {(OpRemove, ''builder-state.json.lock'')}\<rparr>"

definition disk_corrupt_no_read :: env where
  "disk_corrupt_no_read = disk_corrupt\<lparr>deny := {(OpReadFile, ''builder-state.json.lock'')}\<rparr>"

text \<open>
  What happens around the three saves of a session: nothing, then the rename is refused,
  then it is allowed again.
\<close>

definition rename_refused :: "env \<Rightarrow> env" where
  "rename_refused e = e\<lparr>deny := {(OpRename, ''builder-state.json.tmp'')}\<rparr>"

definition nothing_refused :: "env \<Rightarrow> env" where
  "nothing_refused e = e\<lparr>deny := {}\<rparr>"

text \<open>A session on a fresh document.\<close>

definition mgr_new :: Manager where
  "mgr_new = (NewManager ''builder-state.json'')\<lparr>state := Some doc_new\<rparr>"

text \<open>A session whose template has the variable \<open>a\<close> set to the empty string.\<close>

definition doc_empty_var :: State where
  "doc_empty_var = doc_new\<lparr>Template := \<lparr>TemplateState.Path = ''template.pkr.hcl'',
     Hash = ''sha256:00'', Variables = [(''a'', [])], Files = []\<rparr>\<rparr>"

definition mgr_empty_var :: Manager where
  "mgr_empty_var = (NewManager ''builder-state.json'')\<lparr>state := Some doc_empty_var\<rparr>"

text \<open>
  A build that completed with one artifact, the session that holds it, and the engine's
  build of the same name, which would produce another artifact if it ran.
\<close>

definition build_done :: Build where
  "build_done = \<lparr>Build.Name = ''b'', Type = ''null'', Status = BuildStatusComplete,
     Instance = None,
     Provisioners = [\<lparr>ProvisionerState.Type = ''shell'', Name = [], Status = StatusComplete,
        Error = [], StartedAt = 11, EndedAt = 12\<rparr>],
     PostProcess = [],
     Artifacts = [\<lparr>ArtifactState.ID = ''image-1'', BuilderID = ''null'', Type = [],
        Files = [''out/image.raw''], Hash = []\<rparr>],
     Error = [], StartedAt = 10, CompletedAt = 20\<rparr>"

definition doc_done :: State where
  "doc_done = doc_new\<lparr>Serial := 6,
     Template := \<lparr>TemplateState.Path = ''template.pkr.hcl'', Hash = ''sha256:00'',
        Variables = [(''region'', ''eu'')], Files = []\<rparr>,
     Builds := Some [''b'' \<mapsto> build_done]\<rparr>"

definition mgr_done :: Manager where
  "mgr_done = (NewManager ''builder-state.json'')\<lparr>state := Some doc_done\<rparr>"

definition sb_b :: StatefulBuild where
  "sb_b = NewStatefulBuild \<lparr>BuildName = ''b'', BuilderType = ''null'',
     Provisioners = [''shell''],
     RunResult = Inr [EngineArtifact ''image-2'' ''null'' [''out/image.raw'']]\<rparr>"

text \<open>A build that failed in its fourth step, with a step left \<open>running\<close> by a crash.\<close>

definition build_resume :: Build where
  "build_resume = build_done\<lparr>Build.Status := BuildStatusFailed,
     Build.Provisioners := map (\<lambda>st. \<lparr>ProvisionerState.Type = ''shell'', Name = [], Status = st,
         Error = [], StartedAt = 0, EndedAt = 0\<rparr>)
       [StatusComplete, StatusRunning, StatusSkipped, StatusFailed, StatusPending]\<rparr>"

definition lock_in :: lock_inputs where
  "lock_in = \<lparr>new_uuid = ''lock-1'', user = ''alice'', hostname = ''buildhost'', now = 100\<rparr>"

section \<open>The next pending step\<close>

lemma scan_end: "\<not> i < length ps \<Longrightarrow> scan_provisioners ps i = length ps"
  by (subst scan_provisioners.simps) simp

lemma scan_hit:
  "i < length ps \<Longrightarrow>
   ProvisionerState.Status (ps ! i) = StatusPending \<or> ProvisionerState.Status (ps ! i) = StatusFailed \<Longrightarrow>
   scan_provisioners ps i = i"
  by (subst scan_provisioners.simps) simp

lemma scan_miss:
  "i < length ps \<Longrightarrow>
   \<not> (ProvisionerState.Status (ps ! i) = StatusPending \<or> ProvisionerState.Status (ps ! i) = StatusFailed) \<Longrightarrow>
   scan_provisioners ps i = scan_provisioners ps (Suc i)"
  by (subst scan_provisioners.simps) simp

lemma scan_provisioners_spec:
  "i \<le> length ps \<Longrightarrow>
     i \<le> scan_provisioners ps i \<and> scan_provisioners ps i \<le> length ps \<and>
     (scan_provisioners ps i < length ps \<longrightarrow>
        ProvisionerState.Status (ps ! scan_provisioners ps i) \<in> {StatusPending, StatusFailed}) \<and>
     (\<forall>j. i \<le> j \<and> j < scan_provisioners ps i \<longrightarrow>
        ProvisionerState.Status (ps ! j) \<notin> {StatusPending, StatusFailed})"
proof (induction ps i rule: scan_provisioners.induct)
  case (1 ps i)
  show ?case
  proof (cases "i < length ps")
    case False
    with "1.prems" show ?thesis by (auto simp: scan_end)
  next
    case inb: True
    show ?thesis
    proof (cases "ProvisionerState.Status (ps ! i) = StatusPending
               \<or> ProvisionerState.Status (ps ! i) = StatusFailed")
      case True
      with inb have "scan_provisioners ps i = i" by (rule scan_hit)
      with inb True show ?thesis by auto
    next
      case False
      with inb have eq: "scan_provisioners ps i = scan_provisioners ps (Suc i)"
        by (rule scan_miss)
      from inb have "Suc i \<le> length ps" by simp
      from "1.IH"[OF inb False this] have ih:
        "Suc i \<le> scan_provisioners ps (Suc i)"
        "scan_provisioners ps (Suc i) \<le> length ps"
        "scan_provisioners ps (Suc i) < length ps \<longrightarrow>
           ProvisionerState.Status (ps ! scan_provisioners ps (Suc i)) \<in> {StatusPending, StatusFailed}"
        "\<forall>j. Suc i \<le> j \<and> j < scan_provisioners ps (Suc i) \<longrightarrow>
           ProvisionerState.Status (ps ! j) \<notin> {StatusPending, StatusFailed}"
        by blast+
      have "\<forall>j. i \<le> j \<and> j < scan_provisioners ps (Suc i) \<longrightarrow>
           ProvisionerState.Status (ps ! j) \<notin> {StatusPending, StatusFailed}"
      proof (intro allI impI)
        fix j assume j: "i \<le> j \<and> j < scan_provisioners ps (Suc i)"
        show "ProvisionerState.Status (ps ! j) \<notin> {StatusPending, StatusFailed}"
        proof (cases "j = i")
          case True with False show ?thesis by simp
        next
          case False with j have "Suc i \<le> j" by simp
          with j ih(4) show ?thesis by blast
        qed
      qed
      with ih show ?thesis unfolding eq by simp
    qed
  qed
qed

text \<open>
  Claim C6. For every sequence of step records, \<open>NextPendingProvisioner\<close> returns the
  smallest index whose status is \<open>pending\<close> or \<open>failed\<close>: the result is at most the
  length, the step at the result (when there is one) has such a status, and no step
  before it has. When no step is pending or failed the result is the length of the
  sequence; steps that are running, complete or skipped are passed over.
\<close>

theorem NextPendingProvisioner_least:
  "NextPendingProvisioner b \<le> length (Build.Provisioners b) \<and>
   (NextPendingProvisioner b < length (Build.Provisioners b) \<longrightarrow>
      ProvisionerState.Status (Build.Provisioners b ! NextPendingProvisioner b)
        \<in> {StatusPending, StatusFailed}) \<and>
   (\<forall>j < NextPendingProvisioner b.
      ProvisionerState.Status (Build.Provisioners b ! j) \<notin> {StatusPending, StatusFailed}) \<and>
   ((\<forall>p \<in> set (Build.Provisioners b).
       ProvisionerState.Status p \<notin> {StatusPending, StatusFailed}) \<longrightarrow>
      NextPendingProvisioner b = length (Build.Provisioners b))"
proof -
  let ?ps = "Build.Provisioners b"
  let ?r = "NextPendingProvisioner b"
  have s: "?r \<le> length ?ps"
    "?r < length ?ps \<longrightarrow> ProvisionerState.Status (?ps ! ?r) \<in> {StatusPending, StatusFailed}"
    "\<forall>j. 0 \<le> j \<and> j < ?r \<longrightarrow> ProvisionerState.Status (?ps ! j) \<notin> {StatusPending, StatusFailed}"
    using scan_provisioners_spec[of 0 ?ps] unfolding NextPendingProvisioner_def by blast+
  have "?r = length ?ps"
    if none: "\<forall>p \<in> set ?ps. ProvisionerState.Status p \<notin> {StatusPending, StatusFailed}"
  proof (rule ccontr)
    assume "?r \<noteq> length ?ps"
    with s(1) have lt: "?r < length ?ps" by simp
    then have "?ps ! ?r \<in> set ?ps" by simp
    with none s(2) lt show False by blast
  qed
  with s show ?thesis by simp
qed

theorem NextPendingProvisioner_least_witness:
  "NextPendingProvisioner build_resume = 3 \<and>
   NextPendingProvisioner build_resume < length (Build.Provisioners build_resume) \<and>
   ProvisionerState.Status (Build.Provisioners build_resume ! 3) = StatusFailed \<and>
   ProvisionerState.Status (Build.Provisioners build_resume ! 1) = StatusRunning \<and>
   map ProvisionerState.Status (Build.Provisioners build_done) = [StatusComplete] \<and>
   NextPendingProvisioner build_done = length (Build.Provisioners build_done)"
proof -
  have r: "NextPendingProvisioner build_resume = 3"
    by (simp add: NextPendingProvisioner_def build_resume_def scan_hit scan_miss)
  have d: "map ProvisionerState.Status (Build.Provisioners build_done) = [StatusComplete]"
    by (simp add: build_done_def)
  then have n: "\<forall>p \<in> set (Build.Provisioners build_done).
      ProvisionerState.Status p \<notin> {StatusPending, StatusFailed}"
    by (simp add: build_done_def)
  have s: "ProvisionerState.Status (Build.Provisioners build_resume ! 3) = StatusFailed"
    "ProvisionerState.Status (Build.Provisioners build_resume ! 1) = StatusRunning"
    "length (Build.Provisioners build_resume) = 5"
    by (simp_all add: build_resume_def)
  from NextPendingProvisioner_least[of build_resume] NextPendingProvisioner_least[of build_done]
    r n s d
  show ?thesis by simp
qed

section \<open>Change detection\<close>

text \<open>
  Claim C10. On a manager on which no state document has been loaded,
  \<open>InputsChanged\<close> returns true whatever template hash, variables and files it is given.
\<close>

theorem InputsChanged_no_state:
  "state m = None \<Longrightarrow> InputsChanged m templateHash variables fls"
  by (simp add: InputsChanged_def)

theorem InputsChanged_no_state_witness:
  "state (NewManager ''builder-state.json'') = None \<and>
   InputsChanged (NewManager ''builder-state.json'') ''sha256:00'' [(''region'', ''eu'')] []"
proof -
  have h: "state (NewManager ''builder-state.json'') = None"
    by (simp add: NewManager_def)
  from h InputsChanged_no_state[OF h] show ?thesis by simp
qed

text \<open>
  Inputs that equal the stored template record, as mappings, are reported unchanged: the
  loop finds no differing entry and the cardinalities agree.
\<close>

lemma range_differs_iff:
  "range_differs stored given \<longleftrightarrow> (\<exists>(k, v) \<in> set given. index_map stored k \<noteq> v)"
  by (induction stored given rule: range_differs.induct) auto

lemma distinct_keys_length:
  assumes "distinct (map fst xs)" and "distinct (map fst ys)" and "map_of xs = map_of ys"
  shows "length xs = length ys"
proof -
  have "length xs = card (dom (map_of xs))"
    using assms(1) by (metis distinct_card dom_map_of_conv_image_fst length_map list.set_map)
  moreover have "length ys = card (dom (map_of ys))"
    using assms(2) by (metis distinct_card dom_map_of_conv_image_fst length_map list.set_map)
  ultimately show ?thesis using assms(3) by simp
qed

lemma range_same:
  assumes "distinct (map fst given)" and "map_of stored = map_of given"
  shows "\<not> range_differs stored given"
  using assms by (auto simp: range_differs_iff index_map_def)

lemma InputsChanged_same_inputs:
  assumes "state m = Some st"
    and "TemplateState.Hash (Template st) = templateHash"
    and "distinct (map fst (Variables (Template st)))" and "distinct (map fst variables)"
    and "map_of (Variables (Template st)) = map_of variables"
    and "distinct (map fst (TemplateState.Files (Template st)))" and "distinct (map fst fls)"
    and "map_of (TemplateState.Files (Template st)) = map_of fls"
  shows "\<not> InputsChanged m templateHash variables fls"
proof -
  have "length (Variables (Template st)) = length variables"
    using assms(3,4,5) by (rule distinct_keys_length)
  moreover have "length (TemplateState.Files (Template st)) = length fls"
    using assms(6,7,8) by (rule distinct_keys_length)
  moreover have "\<not> range_differs (Variables (Template st)) variables"
    using assms(4,5) by (rule range_same)
  moreover have "\<not> range_differs (TemplateState.Files (Template st)) fls"
    using assms(7,8) by (rule range_same)
  ultimately show ?thesis
    using assms(1,2) by (simp add: InputsChanged_def len_map_def)
qed

text \<open>
  Claim C5 says that \<open>InputsChanged\<close> is false for inputs equal to the stored template
  record and true as soon as the hash, a key or a value of the variables, the cardinality
  of a mapping or an entry of the files differs, an absent key being different from any
  present value, the empty string included. The code reads the stored mapping with
  \<^verbatim>\<open>stored[k]\<close>, which is the empty string at an absent key, and never asks whether the
  key is present. With the variable \<open>a\<close> stored as the empty string and the variable
  \<open>b\<close> given as the empty string, the hash and the cardinalities agree, the mappings
  differ (\<open>a\<close> is present in one and absent from the other), and the code answers false.
\<close>

theorem InputsChanged_misses_renamed_key:
  "TemplateState.Hash (Template doc_empty_var) = ''sha256:00'' \<and>
   map_of (Variables (Template doc_empty_var)) ''a'' = Some [] \<and>
   map_of [(''b'', [])] ''a'' = None \<and>
   map_of (Variables (Template doc_empty_var)) \<noteq> map_of [(''b'', [])] \<and>
   InputsChanged mgr_empty_var ''sha256:00'' [(''b'', [])] [] = False"
proof -
  have "map_of [(''a'', [])] ''a'' \<noteq> map_of [(''b'', [])] ''a''"
    by simp
  then have "map_of [(''a'', ([]::string))] \<noteq> map_of [(''b'', [])]"
    by metis
  then show ?thesis
    by (simp add: doc_empty_var_def mgr_empty_var_def InputsChanged_def len_map_def
          index_map_def)
qed

section \<open>The fingerprint\<close>

text \<open>
  Claim C1 says that two documents with the same template hash and with variables and
  files equal as mappings have the same fingerprint, because the keys are hashed in sorted
  order. The code writes the entries to the hasher in the order of the \<^verbatim>\<open>range\<close>
  loop and does not sort, although its comments announce sorted variables and sorted file
  hashes. The two orders of the variables \<open>a\<close> and \<open>b\<close> are the same mapping and feed
  different bytes to SHA-256, so the fingerprints are the digests of two different inputs.
\<close>

theorem ComputeFingerprint_follows_range_order:
  "TemplateState.Hash (Template doc_ab) = TemplateState.Hash (Template doc_ba) \<and>
   map_of (Variables (Template doc_ab)) = map_of (Variables (Template doc_ba)) \<and>
   map_of (TemplateState.Files (Template doc_ab)) = map_of (TemplateState.Files (Template doc_ba)) \<and>
   fingerprint_input doc_ab = ''sha256:00a1b2'' \<and>
   fingerprint_input doc_ba = ''sha256:00b2a1'' \<and>
   (\<forall>sha256. ComputeFingerprint sha256 doc_ab = ''sha256:'' @ hex (sha256 ''sha256:00a1b2'') \<and>
              ComputeFingerprint sha256 doc_ba = ''sha256:'' @ hex (sha256 ''sha256:00b2a1''))"
proof -
  have "map_of [(''a'', ''1''), (''b'', ''2'')] = map_of [(''b'', ''2''), (''a'', ''1'')]"
    by (rule ext) simp
  then show ?thesis
    by (simp add: doc_ab_def doc_ba_def ComputeFingerprint_def fingerprint_input_def)
qed

section \<open>Loading\<close>

text \<open>
  Claim C2 says that a file whose content parses as a state document with a schema
  version other than 1 is refused with CorruptState. \<open>Load\<close> never reads the version: the
  document of version 2 is loaded.
\<close>

theorem Load_accepts_unknown_version:
  "Version doc_v2 = 2 \<and>
   files disk_v2 ''builder-state.json'' = Some (StateDoc doc_v2) \<and>
   Load ''builder-state.json'' disk_v2 = Inr (Some (doc_v2\<lparr>filePath := ''builder-state.json''\<rparr>))"
  by (simp add: doc_v2_def disk_v2_def Load_def)

text \<open>
  Claim C2, amended. When the file can be opened and read, \<open>Load\<close> fails with the decode
  error (CorruptState) for a content that the JSON decoder rejects, such as an empty or a
  truncated file, and it loads every content that parses as a state document, whatever
  its schema version, setting only the path it was loaded from.
\<close>

theorem Load_corrupt_only_if_undecodable:
  assumes "(OpOpen, path) \<notin> deny e" and "(OpRead, path) \<notin> deny e"
  shows "(files e path = Some (Malformed bs) \<longrightarrow> Load path e = Inl ErrDecodeState) \<and>
         (files e path = Some (StateDoc st) \<longrightarrow>
            Load path e = Inr (Some (st\<lparr>filePath := path\<rparr>)))"
  using assms by (simp add: Load_def)

theorem Load_corrupt_only_if_undecodable_witness:
  "Load ''empty.json'' disk_v2 = Inl ErrDecodeState \<and>
   Version doc_v2 \<noteq> 1 \<and>
   Load ''builder-state.json'' disk_v2 = Inr (Some (doc_v2\<lparr>filePath := ''builder-state.json''\<rparr>))"
proof -
  have d: "(OpOpen, ''empty.json'') \<notin> deny disk_v2" "(OpRead, ''empty.json'') \<notin> deny disk_v2"
    "(OpOpen, ''builder-state.json'') \<notin> deny disk_v2"
    "(OpRead, ''builder-state.json'') \<notin> deny disk_v2"
    by (simp_all add: disk_v2_def)
  have f: "files disk_v2 ''empty.json'' = Some (Malformed [])"
    "files disk_v2 ''builder-state.json'' = Some (StateDoc doc_v2)"
    by (simp_all add: disk_v2_def)
  have v: "Version doc_v2 \<noteq> 1" by (simp add: doc_v2_def)
  from Load_corrupt_only_if_undecodable[OF d(1,2), of "[]" doc_v2]
       Load_corrupt_only_if_undecodable[OF d(3,4), of "[]" doc_v2] f v
  show ?thesis by simp
qed

section \<open>Saving\<close>

text \<open>\<^verbatim>\<open>MkdirAll\<close> touches directories only.\<close>

lemma mkdir_chain_keeps:
  "mkdir_chain e ds = (r, e') \<Longrightarrow>
   files e' = files e \<and> deny e' = deny e \<and> encode e' = encode e"
proof (induction ds arbitrary: e)
  case Nil
  then show ?case by simp
next
  case (Cons d ds)
  show ?case
  proof (cases "d \<in> dirs e")
    case True
    with Cons.prems have "mkdir_chain e ds = (r, e')" by simp
    then show ?thesis by (rule Cons.IH)
  next
    case False
    show ?thesis
    proof (cases "(OpMkdir, d) \<in> deny e")
      case True
      with False Cons.prems show ?thesis by simp
    next
      case allowed: False
      with False Cons.prems
      have "mkdir_chain (e\<lparr>dirs := insert d (dirs e)\<rparr>) ds = (r, e')" by simp
      from Cons.IH[OF this] show ?thesis by simp
    qed
  qed
qed

lemma os_MkdirAll_keeps:
  "os_MkdirAll e d = (r, e') \<Longrightarrow>
   files e' = files e \<and> deny e' = deny e \<and> encode e' = encode e"
  unfolding os_MkdirAll_def by (rule mkdir_chain_keeps)

lemma os_MkdirAll_here:
  "''.'' \<in> dirs e \<Longrightarrow> os_MkdirAll e ''.'' = (None, e)"
  by (simp add: os_MkdirAll_def dir_chain_def)

lemma os_Remove_files:
  "files (snd (os_Remove e p)) q =
     (if (OpRemove, p) \<in> deny e \<or> q \<noteq> p then files e q else None)"
  "deny (snd (os_Remove e p)) = deny e"
  by (simp_all add: os_Remove_def)

lemma filepath_Dir_here:
  "filepath_Dir ''builder-state.json'' = ''.''"
  "filepath_Dir ''builder-state.json.lock'' = ''.''"
  by (simp_all add: filepath_Dir_def)

text \<open>
  Claim C3 says that after a save that fails the temporary file is removed and the serial
  of the document in memory is as it was. The increment is the first statement of
  \<open>Save\<close> and nothing takes it back: when the rename is refused the save fails and the
  serial has gone from 1 to 2. The removal of the temporary file is one call whose result
  is dropped: when the operating system refuses it as well, the file stays. And when
  the temporary file cannot be created, nothing removes the one that an earlier run has
  left.
\<close>

theorem Save_failure_counterexample:
  "fst (Save doc_new ''builder-state.json'' disk_no_rename) = Some ErrRename \<and>
   Serial doc_new = 1 \<and>
   Serial (fst (snd (Save doc_new ''builder-state.json'' disk_no_rename))) = 2 \<and>
   fst (Save doc_new ''builder-state.json'' disk_no_rename_no_remove) = Some ErrRename \<and>
   files (snd (snd (Save doc_new ''builder-state.json'' disk_no_rename_no_remove)))
     ''builder-state.json.tmp'' = Some (StateDoc (doc_new\<lparr>Serial := 2\<rparr>)) \<and>
   fst (Save doc_new ''builder-state.json'' disk_stale_tmp) = Some ErrCreateTemp \<and>
   files (snd (snd (Save doc_new ''builder-state.json'' disk_stale_tmp)))
     ''builder-state.json.tmp'' = Some (Malformed ''{'')"
  by (simp add: Save_def Let_def doc_new_def New_def disk_no_rename_def
        disk_no_rename_no_remove_def disk_stale_tmp_def disk_saved_def os_Remove_def
        filepath_Dir_here os_MkdirAll_here encode_as_is_def)

text \<open>
  Claim C3, amended. For every save that fails, whatever made it fail (the creation of
  the directory or of the temporary file, the encoder rejecting the document or its write
  being refused, the close, the rename): the file at the state path is what it was before
  the call; the serial of the document in memory has been incremented by one all the
  same; when creating the directory or the temporary file failed, the temporary path
  holds what it held before the call; and when encoding, closing or renaming failed the
  temporary file is gone, provided the operating system carries out the removal, whose
  result the code does not look at.
\<close>

theorem Save_failure_effects:
  assumes "Save s path e = (Some err, s', e')"
  shows "files e' path = files e path \<and>
         Serial s' = Serial s + 1 \<and> Serial s' \<noteq> Serial s \<and>
         err \<in> {ErrCreateStateDir, ErrCreateTemp, ErrEncode, ErrCloseTemp, ErrRename} \<and>
         (err \<in> {ErrCreateStateDir, ErrCreateTemp} \<longrightarrow>
            files e' (path @ ''.tmp'') = files e (path @ ''.tmp'')) \<and>
         (err \<in> {ErrEncode, ErrCloseTemp, ErrRename} \<longrightarrow>
            (OpRemove, path @ ''.tmp'') \<notin> deny e \<longrightarrow> files e' (path @ ''.tmp'') = None)"
proof -
  let ?tmp = "path @ ''.tmp''"
  let ?s1 = "s\<lparr>Serial := Serial s + 1, filePath := path\<rparr>"
  obtain r0 e0 where mk: "os_MkdirAll e (filepath_Dir path) = (r0, e0)"
    by (cases "os_MkdirAll e (filepath_Dir path)")
  from os_MkdirAll_keeps[OF mk] have k: "files e0 = files e" "deny e0 = deny e"
    by simp_all
  let ?e1 = "e0\<lparr>files := (files e0)(?tmp \<mapsto> Malformed [])\<rparr>"
  show ?thesis
  proof (cases r0)
    case (Some x)
    with assms mk have "err = ErrCreateStateDir" "s' = ?s1" "e' = e0"
      by (simp_all add: Save_def Let_def)
    then show ?thesis by (simp add: k)
  next
    case None
    note made = None
    show ?thesis
    proof (cases "(OpCreate, ?tmp) \<in> deny e0")
      case True
      with assms mk made have "err = ErrCreateTemp" "s' = ?s1" "e' = e0"
        by (simp_all add: Save_def Let_def)
      then show ?thesis by (simp add: k)
    next
      case created: False
      show ?thesis
      proof (cases "encode ?e1 ?s1")
        case None
        with assms mk made created
        have "err = ErrEncode" "s' = ?s1" "e' = snd (os_Remove ?e1 ?tmp)"
          by (simp_all add: Save_def Let_def)
        then show ?thesis by (simp add: k os_Remove_files)
      next
        case (Some bytes)
        note enc = Some
        let ?e2 = "?e1\<lparr>files := (files ?e1)(?tmp \<mapsto> bytes)\<rparr>"
        show ?thesis
        proof (cases "(OpWrite, ?tmp) \<in> deny ?e1")
          case True
          with assms mk made created enc
          have "err = ErrEncode" "s' = ?s1"
            "e' = snd (os_Remove (?e1\<lparr>files := (files ?e1)(?tmp \<mapsto> torn ?e1 bytes)\<rparr>) ?tmp)"
            by (simp_all add: Save_def Let_def)
          then show ?thesis by (simp add: k os_Remove_files)
        next
          case written: False
          show ?thesis
          proof (cases "(OpClose, ?tmp) \<in> deny ?e2")
            case True
            with assms mk made created enc written
            have "err = ErrCloseTemp" "s' = ?s1" "e' = snd (os_Remove ?e2 ?tmp)"
              by (simp_all add: Save_def Let_def)
            then show ?thesis by (simp add: k os_Remove_files)
          next
            case closed: False
            have "(OpRename, ?tmp) \<in> deny ?e2"
            proof (rule ccontr)
              assume "(OpRename, ?tmp) \<notin> deny ?e2"
              with assms mk made created enc written closed show False
                by (simp add: Save_def Let_def)
            qed
            with assms mk made created enc written closed
            have "err = ErrRename" "s' = ?s1" "e' = snd (os_Remove ?e2 ?tmp)"
              by (simp_all add: Save_def Let_def)
            then show ?thesis by (simp add: k os_Remove_files)
          qed
        qed
      qed
    qed
  qed
qed

theorem Save_failure_effects_witness:
  "Save doc_new ''builder-state.json'' disk_no_rename =
     (Some ErrRename, doc_new\<lparr>Serial := 2, filePath := ''builder-state.json''\<rparr>, disk_no_rename) \<and>
   Save doc_new ''builder-state.json'' disk_unencodable =
     (Some ErrEncode, doc_new\<lparr>Serial := 2, filePath := ''builder-state.json''\<rparr>, disk_unencodable) \<and>
   Save doc_new ''builder-state.json'' disk_stale_tmp =
     (Some ErrCreateTemp, doc_new\<lparr>Serial := 2, filePath := ''builder-state.json''\<rparr>, disk_stale_tmp) \<and>
   files disk_no_rename ''builder-state.json'' = Some (StateDoc doc_new) \<and>
   files disk_no_rename ''builder-state.json.tmp'' = None \<and>
   files disk_unencodable ''builder-state.json.tmp'' = None \<and>
   files disk_stale_tmp ''builder-state.json.tmp'' = Some (Malformed ''{'')"
proof -
  have s1: "Save doc_new ''builder-state.json'' disk_no_rename =
     (Some ErrRename, doc_new\<lparr>Serial := 2, filePath := ''builder-state.json''\<rparr>, disk_no_rename)"
    by (simp add: Save_def Let_def doc_new_def New_def disk_no_rename_def disk_saved_def
          os_Remove_def filepath_Dir_here os_MkdirAll_here encode_as_is_def)
  have s2: "Save doc_new ''builder-state.json'' disk_unencodable =
     (Some ErrEncode, doc_new\<lparr>Serial := 2, filePath := ''builder-state.json''\<rparr>, disk_unencodable)"
    by (simp add: Save_def Let_def doc_new_def New_def disk_unencodable_def disk_saved_def
          os_Remove_def filepath_Dir_here os_MkdirAll_here encode_rejects_def)
  have s3: "Save doc_new ''builder-state.json'' disk_stale_tmp =
     (Some ErrCreateTemp, doc_new\<lparr>Serial := 2, filePath := ''builder-state.json''\<rparr>, disk_stale_tmp)"
    by (simp add: Save_def Let_def doc_new_def New_def disk_stale_tmp_def disk_saved_def
          filepath_Dir_here os_MkdirAll_here)
  have f: "files disk_no_rename ''builder-state.json'' = Some (StateDoc doc_new)"
    "files disk_no_rename ''builder-state.json.tmp'' = None"
    "files disk_unencodable ''builder-state.json.tmp'' = None"
    "files disk_stale_tmp ''builder-state.json.tmp'' = Some (Malformed ''{'')"
    by (simp_all add: disk_no_rename_def disk_unencodable_def disk_stale_tmp_def disk_saved_def)
  from Save_failure_effects[OF s1] Save_failure_effects[OF s2] Save_failure_effects[OF s3]
    s1 s2 s3 f
  show ?thesis by blast
qed

text \<open>
  Every call of \<open>Save\<close> adds one to the serial, whether it succeeds or fails, and the
  other operations on the document leave the serial alone.
\<close>

lemma Save_serial:
  "Save s path e = (r, s', e') \<Longrightarrow> Serial s' = Serial s + 1"
  by (auto simp: Save_def Let_def split: if_splits option.splits prod.splits)

lemma SetBuild_serial:
  "SetBuild s name b = Inr s' \<Longrightarrow> Serial s' = Serial s"
  by (auto simp: SetBuild_def split: option.splits)

lemma RemoveBuild_serial:
  "Serial (RemoveBuild s name) = Serial s"
  by (simp add: RemoveBuild_def split: option.splits)

lemma UpdateTemplateInputs_serial:
  "map_option Serial (state (UpdateTemplateInputs m p h vs fs)) = map_option Serial (state m)"
  by (simp add: UpdateTemplateInputs_def split: option.splits)

lemma sint_add_of_nat:
  fixes w :: go_int
  assumes "sint w + int n < 2 ^ 63"
  shows "sint (w + of_nat n) = sint w + int n"
proof -
  have "w + of_nat n = word_of_int (sint w + int n)"
    by simp
  then have "sint (w + of_nat n) = signed_take_bit (LENGTH(64) - 1) (sint w + int n)"
    by (simp only: sint_sbintrunc')
  moreover have "- (2 ^ 63) \<le> sint w"
    using sint_ge[of w] by simp
  ultimately show ?thesis
    using assms by (simp add: signed_take_bit_int_eq_self)
qed

lemma upt_from_1_Suc:
  "[1..<Suc (Suc n)] = 1 # map Suc [1..<Suc n]"
proof -
  have "[1..<Suc (Suc n)] = 1 # [Suc 1..<Suc (Suc n)]"
    by (simp add: upt_conv_Cons)
  also have "[Suc 1..<Suc (Suc n)] = map Suc [1..<Suc n]"
    by (simp only: map_Suc_upt)
  finally show ?thesis .
qed

lemma map_upt_from_1:
  "map f [1..<Suc (Suc n)] = f 1 # map (\<lambda>k. f (Suc k)) [1..<Suc n]"
  by (simp only: upt_from_1_Suc list.map map_map comp_def)

lemma serial_trace_step:
  fixes S :: go_int
  shows "map (\<lambda>k. S + of_nat k) [1..<Suc (Suc n)] =
         (S + 1) # map (\<lambda>k. S + 1 + of_nat k) [1..<Suc n]"
proof -
  have "map (\<lambda>k. S + of_nat k) [1..<Suc (Suc n)] =
        (S + of_nat 1) # map (\<lambda>k. S + of_nat (Suc k)) [1..<Suc n]"
    by (rule map_upt_from_1)
  also have "(\<lambda>k. S + of_nat (Suc k)) = (\<lambda>k. S + 1 + of_nat k)"
    by (simp add: add.assoc)
  finally show ?thesis by simp
qed

lemma save_session_trace:
  "save_session ws s path e = (rs, s', e') \<Longrightarrow>
   map snd rs = map (\<lambda>k. Serial s + of_nat k) [1..<Suc (length ws)] \<and>
   Serial s' = Serial s + of_nat (length ws)"
proof (induction ws arbitrary: s e rs s' e')
  case Nil
  then show ?case by simp
next
  case (Cons w ws)
  obtain r s1 e1 where sv: "Save s path (w e) = (r, s1, e1)"
    by (cases "Save s path (w e)")
  obtain rs1 s2 e2 where rest: "save_session ws s1 path e1 = (rs1, s2, e2)"
    by (cases "save_session ws s1 path e1")
  from Cons.prems sv rest have rs: "rs = (r, Serial s1) # rs1" and s': "s' = s2"
    by simp_all
  from Save_serial[OF sv] have one: "Serial s1 = Serial s + 1" .
  from Cons.IH[OF rest] have ih:
    "map snd rs1 = map (\<lambda>k. Serial s1 + of_nat k) [1..<Suc (length ws)]"
    "Serial s2 = Serial s1 + of_nat (length ws)"
    by simp_all
  have "map snd rs = (Serial s + 1) # map (\<lambda>k. Serial s + 1 + of_nat k) [1..<Suc (length ws)]"
    by (simp only: rs list.map snd_conv ih(1) one)
  also have "\<dots> = map (\<lambda>k. Serial s + of_nat k) [1..<Suc (Suc (length ws))]"
    by (rule serial_trace_step[symmetric])
  finally have "map snd rs = map (\<lambda>k. Serial s + of_nat k) [1..<Suc (Suc (length ws))]" .
  moreover have "Serial s' = Serial s + of_nat (Suc (length ws))"
    using ih(2) one s' by simp
  ultimately show ?case by simp
qed

text \<open>
  Claim C4 says that each successful save increments the serial by exactly one, so that
  over any sequence of successful saves in one session the serial strictly increases in
  steps of one. Two things stand against it. The serial is a Go \<^verbatim>\<open>int\<close>: at the
  largest value the increment wraps around to the smallest one, and the save succeeds.
  And a save that fails increments the serial too, while the session goes on: with a
  refused rename between them, two successive successful saves leave the serials 2 and 4.
\<close>

theorem Save_serial_step_counterexample:
  "fst (Save doc_max ''builder-state.json'' disk_empty) = None \<and>
   sint (Serial doc_max) = 9223372036854775807 \<and>
   sint (Serial (fst (snd (Save doc_max ''builder-state.json'' disk_empty)))) =
     - 9223372036854775808 \<and>
   fst (save_session [nothing_refused, rename_refused, nothing_refused] doc_new
          ''builder-state.json'' disk_empty) =
     [(None, 2), (Some ErrRename, 3), (None, 4)]"
  by (simp add: Save_def Let_def doc_max_def doc_new_def New_def disk_empty_def
        filepath_Dir_here os_MkdirAll_here encode_as_is_def rename_refused_def
        nothing_refused_def os_Remove_def)

text \<open>
  Claim C4, amended. Every call of save, successful or failed, adds exactly one to the
  document's serial in the 64-bit arithmetic of Go's \<^verbatim>\<open>int\<close>. Over the saves of one
  session the serial left by the \<open>k\<close>-th call is therefore the serial at the start plus
  \<open>k\<close> modulo \<open>2 ^ 64\<close>, whatever the surroundings do between the calls; as long as it
  stays below \<open>2 ^ 63\<close> it is that sum itself, so from one successful save to the next
  the serial strictly increases: by one when no save failed in between, and by one more
  for each save that did.
\<close>

theorem save_session_serial:
  assumes "save_session ws s path e = (rs, s', e')"
  shows "map snd rs = map (\<lambda>k. Serial s + of_nat k) [1..<Suc (length ws)] \<and>
         Serial s' = Serial s + of_nat (length ws) \<and>
         (sint (Serial s) + int (length ws) < 2 ^ 63 \<longrightarrow>
            map (\<lambda>r. sint (snd r)) rs =
              map (\<lambda>k. sint (Serial s) + int k) [1..<Suc (length ws)] \<and>
            sint (Serial s') = sint (Serial s) + int (length ws))"
proof -
  from save_session_trace[OF assms] have t:
    "map snd rs = map (\<lambda>k. Serial s + of_nat k) [1..<Suc (length ws)]"
    "Serial s' = Serial s + of_nat (length ws)"
    by simp_all
  have "map (\<lambda>r. sint (snd r)) rs = map (\<lambda>k. sint (Serial s) + int k) [1..<Suc (length ws)]"
    if b: "sint (Serial s) + int (length ws) < 2 ^ 63"
  proof -
    have "map (\<lambda>r. sint (snd r)) rs = map sint (map snd rs)"
      by (simp add: comp_def)
    also have "\<dots> = map (\<lambda>k. sint (Serial s + of_nat k)) [1..<Suc (length ws)]"
      by (simp only: t(1) map_map comp_def)
    also have "\<dots> = map (\<lambda>k. sint (Serial s) + int k) [1..<Suc (length ws)]"
    proof (rule map_cong[OF refl])
      fix k assume "k \<in> set [1..<Suc (length ws)]"
      then have "k \<le> length ws" by auto
      with b have "sint (Serial s) + int k < 2 ^ 63" by simp
      then show "sint (Serial s + of_nat k) = sint (Serial s) + int k"
        by (rule sint_add_of_nat)
    qed
    finally show ?thesis .
  qed
  moreover have "sint (Serial s') = sint (Serial s) + int (length ws)"
    if "sint (Serial s) + int (length ws) < 2 ^ 63"
    using that t(2) by (simp add: sint_add_of_nat)
  ultimately show ?thesis using t by blast
qed

theorem save_session_serial_witness:
  "fst (save_session [nothing_refused, rename_refused, nothing_refused] doc_new
          ''builder-state.json'' disk_empty) =
     [(None, 2), (Some ErrRename, 3), (None, 4)] \<and>
   Serial (fst (snd (save_session [nothing_refused, rename_refused, nothing_refused] doc_new
          ''builder-state.json'' disk_empty))) = 4 \<and>
   sint (Serial doc_new) = 1 \<and>
   sint (Serial (fst (snd (save_session [nothing_refused, rename_refused, nothing_refused]
          doc_new ''builder-state.json'' disk_empty)))) = 1 + 3"
proof -
  obtain rs s' e' where
    s: "save_session [nothing_refused, rename_refused, nothing_refused] doc_new
          ''builder-state.json'' disk_empty = (rs, s', e')"
    by (cases "save_session [nothing_refused, rename_refused, nothing_refused] doc_new
          ''builder-state.json'' disk_empty")
  have rs: "fst (save_session [nothing_refused, rename_refused, nothing_refused] doc_new
          ''builder-state.json'' disk_empty) = [(None, 2), (Some ErrRename, 3), (None, 4)]"
    by (simp add: Save_def Let_def doc_new_def New_def disk_empty_def
          filepath_Dir_here os_MkdirAll_here encode_as_is_def rename_refused_def
          nothing_refused_def os_Remove_def)
  have one: "sint (Serial doc_new) = 1" "Serial doc_new = 1"
    by (simp_all add: doc_new_def New_def)
  from save_session_serial[OF s] one s rs show ?thesis by simp
qed

section \<open>The build wrapper\<close>

text \<open>
  A build without a record runs from scratch: the record is created and saved, the status
  goes to \<open>creating\<close> and is saved, the engine runs, and its artifacts are returned and
  recorded with the status \<open>complete\<close> in a third save.
\<close>

lemma Run_fresh_example:
  "fst (Run sb_b mgr_new 30 40 disk_empty) =
     Inr [EngineArtifact ''image-2'' ''null'' [''out/image.raw'']] \<and>
   map_option Serial (state (fst (snd (Run sb_b mgr_new 30 40 disk_empty)))) = Some 4 \<and>
   map_option (\<lambda>st. map_option Build.Status (GetBuild st ''b''))
     (state (fst (snd (Run sb_b mgr_new 30 40 disk_empty)))) = Some (Some BuildStatusComplete)"
  by (simp add: mgr_new_def doc_new_def New_def sb_b_def NewStatefulBuild_def
        Run_def Run_build_def runFreshBuild_def Manager_SetBuild_def SetBuild_def
        Manager_Save_def Save_def through_def
        GetBuild_def IsComplete_def HasInstance_def inputsChangedSinceLastBuild_def
        artifactsToState_def NewManager_def disk_empty_def filepath_Dir_here
        os_MkdirAll_here Let_def encode_as_is_def)

text \<open>
  Claim C7 says that for a build recorded as complete the wrapper returns the cached
  artifacts if and only if the inputs are unchanged, and re-creates the build when an
  input has changed. \<open>inputsChangedSinceLastBuild\<close> is the constant false (its comment
  defers the check), so \<open>Run\<close> returns the cached artifacts of every complete build. With
  the variable \<open>region\<close> changed from \<open>eu\<close> to \<open>us\<close>, \<open>InputsChanged\<close> is true, and
  \<open>Run\<close>, before and after the new inputs are written into the document, returns the
  cached artifact, leaves the document and the disk as they were and does not take the
  artifact the engine would have built.
\<close>

theorem Run_returns_cache_after_input_change:
  "InputsChanged mgr_done ''sha256:00'' [(''region'', ''us'')] [] \<and>
   Run sb_b mgr_done 30 40 disk_empty =
     (Inr [CachedArtifact ''image-1'' ''null'' [''out/image.raw'']], mgr_done, disk_empty) \<and>
   Run sb_b (UpdateTemplateInputs mgr_done ''template.pkr.hcl'' ''sha256:00''
               [(''region'', ''us'')] []) 30 40 disk_empty =
     (Inr [CachedArtifact ''image-1'' ''null'' [''out/image.raw'']],
      UpdateTemplateInputs mgr_done ''template.pkr.hcl'' ''sha256:00'' [(''region'', ''us'')] [],
      disk_empty)"
  by (simp add: mgr_done_def doc_done_def build_done_def sb_b_def NewStatefulBuild_def
        InputsChanged_def len_map_def index_map_def UpdateTemplateInputs_def Run_def
        GetBuild_def IsComplete_def inputsChangedSinceLastBuild_def
        loadArtifactsFromState_def NewManager_def)

section \<open>The lock\<close>

text \<open>
  What \<open>Unlock\<close> does with a held lock, by the state of the lock file: missing, held by
  another id, or held by the same id.
\<close>

lemma Unlock_missing:
  "lock lm = Some held \<Longrightarrow> files e (lockPath lm) = None \<Longrightarrow>
   Unlock lm e = (Some ErrReadLockBeforeUnlock, lm, e)"
  by (simp add: Unlock_def readLock_def)

lemma Unlock_stolen:
  "lock lm = Some held \<Longrightarrow> (OpReadFile, lockPath lm) \<notin> deny e \<Longrightarrow>
   files e (lockPath lm) = Some (LockDoc other) \<Longrightarrow> Lock.ID other \<noteq> Lock.ID held \<Longrightarrow>
   Unlock lm e = (Some (ErrLockStolen (Who other) (Lock.ID other)), lm, e)"
  by (simp add: Unlock_def readLock_def)

lemma Unlock_removes:
  "lock lm = Some held \<Longrightarrow> (OpReadFile, lockPath lm) \<notin> deny e \<Longrightarrow>
   files e (lockPath lm) = Some (LockDoc other) \<Longrightarrow> Lock.ID other = Lock.ID held \<Longrightarrow>
   (OpRemove, lockPath lm) \<notin> deny e \<Longrightarrow>
   Unlock lm e = (None, lm\<lparr>lock := None\<rparr>, e\<lparr>files := (files e)(lockPath lm := None)\<rparr>)"
  by (simp add: Unlock_def readLock_def os_Remove_def)

text \<open>
  Claim C8 says that release fails with LockStolen when the id read back differs, removes
  the lock file when it matches, and succeeds without error when the lock file is missing.
  The first two hold (\<open>Unlock_stolen\<close>, \<open>Unlock_removes\<close>). For the third, \<open>Unlock\<close>
  tolerates a missing file only in \<^verbatim>\<open>os.Remove\<close>, as \<open>ForceUnlock\<close> does, but it has
  already returned at the read-back. A session takes the lock, another process forces
  the lock away, and the session's release fails and still holds its lock record.
\<close>

theorem Unlock_fails_when_lock_file_missing:
  "(case Lock (NewLockManager ''builder-state.json'') ''build'' lock_in disk_empty of
      (r1, lm1, e1) \<Rightarrow>
        r1 = None \<and> lock lm1 \<noteq> None \<and> files e1 (lockPath lm1) \<noteq> None \<and>
        (case ForceUnlock (NewLockManager ''builder-state.json'') e1 of
           (r2, lm2, e2) \<Rightarrow>
             r2 = None \<and> files e2 (lockPath lm1) = None \<and>
             Unlock lm1 e2 = (Some ErrReadLockBeforeUnlock, lm1, e2)))"
  by (simp add: Lock_def Unlock_def ForceUnlock_def NewLockManager_def lock_in_def
        disk_empty_def os_Stat_def os_Remove_def readLock_def filepath_Dir_here
        os_MkdirAll_here Let_def)

lemma Lock_success:
  assumes "Lock lm operation inp e = (None, lm1, e1)"
  shows "\<exists>l. lm1 = lm\<lparr>lock := Some l\<rparr> \<and>
             files e1 = (files e)(lockPath lm \<mapsto> LockDoc l) \<and> deny e1 = deny e"
proof -
  obtain r0 e0 where mk: "os_MkdirAll e (filepath_Dir (lockPath lm)) = (r0, e0)"
    by (cases "os_MkdirAll e (filepath_Dir (lockPath lm))")
  from os_MkdirAll_keeps[OF mk] have k: "files e0 = files e" "deny e0 = deny e"
    by simp_all
  let ?l = "\<lparr>Lock.ID = new_uuid inp, Operation = operation,
              Who = user inp @ ''@'' @ (if hostname inp = [] then ''unknown'' else hostname inp),
              Created = now inp, Path = LockManager.statePath lm\<rparr>"
  let ?e2 = "e0\<lparr>files := (files e0)(lockPath lm \<mapsto> LockDoc ?l)\<rparr>"
  from assms mk have "lm1 = lm\<lparr>lock := Some ?l\<rparr> \<and> e1 = ?e2"
    by (simp add: Lock_def Let_def split: if_splits sum.splits option.splits)
  then show ?thesis by (intro exI[of _ ?l]) (simp add: k)
qed

text \<open>
  Claim C9 says that after an open in which the lock was acquired and the load of the state
  document failed, no lock remains held. \<open>Manager_Load\<close> calls \<open>Unlock\<close> and drops its
  result. When the operating system refuses to remove the lock file, or to read it back,
  \<open>Unlock\<close> fails, and the load error is returned with the lock record still in the lock
  manager and the lock file still on the disk.
\<close>

theorem Manager_Load_keeps_lock_counterexample:
  "fst (Lock (lockManager (NewManager ''builder-state.json'')) ''build'' lock_in
          disk_corrupt_no_remove) = None \<and>
   Load ''builder-state.json'' (snd (snd (Lock (lockManager (NewManager ''builder-state.json''))
          ''build'' lock_in disk_corrupt_no_remove))) = Inl ErrDecodeState \<and>
   fst (Manager_Load (NewManager ''builder-state.json'') lock_in ''lineage-2''
          disk_corrupt_no_remove) = Inl ErrDecodeState \<and>
   map_option Lock.ID (lock (lockManager (fst (snd (Manager_Load
          (NewManager ''builder-state.json'') lock_in ''lineage-2'' disk_corrupt_no_remove)))))
     = Some ''lock-1'' \<and>
   map_option decode_Lock (files (snd (snd (Manager_Load (NewManager ''builder-state.json'')
          lock_in ''lineage-2'' disk_corrupt_no_remove))) ''builder-state.json.lock'')
     = Some (lock (lockManager (fst (snd (Manager_Load
          (NewManager ''builder-state.json'') lock_in ''lineage-2'' disk_corrupt_no_remove))))) \<and>
   fst (Manager_Load (NewManager ''builder-state.json'') lock_in ''lineage-2''
          disk_corrupt_no_read) = Inl ErrDecodeState \<and>
   map_option Lock.ID (lock (lockManager (fst (snd (Manager_Load
          (NewManager ''builder-state.json'') lock_in ''lineage-2'' disk_corrupt_no_read)))))
     = Some ''lock-1''"
  by (simp add: Manager_Load_def Lock_def Unlock_def Load_def NewManager_def
        NewLockManager_def lock_in_def disk_corrupt_no_remove_def disk_corrupt_no_read_def
        disk_corrupt_def os_Stat_def os_Remove_def readLock_def filepath_Dir_here
        os_MkdirAll_here Let_def)

text \<open>
  Claim C9, amended. When \<open>Manager_Load\<close> has acquired the lock and the load of the state
  document then fails, the manager calls the release before it returns the load error,
  and returns that error whatever the release does. The lock is released (the lock
  manager holds no lock and the lock file is gone) exactly when the operating system lets
  the lock file be read back and removed; when it refuses one of the two, the lock is
  still held and the lock file is still there.
\<close>

theorem Manager_Load_unlock_on_load_failure:
  assumes "Lock (lockManager m) ''build'' inp e = (None, lm1, e1)"
    and "Load (Manager.statePath m) e1 = Inl err"
  shows "lock lm1 \<noteq> None \<and> files e1 (lockPath (lockManager m)) \<noteq> None \<and>
         (case Manager_Load m inp lineage e of
            (r, m', e') \<Rightarrow>
              r = Inl err \<and> state m' = state m \<and>
              ((OpReadFile, lockPath (lockManager m)) \<notin> deny e \<and>
               (OpRemove, lockPath (lockManager m)) \<notin> deny e \<longrightarrow>
                 lock (lockManager m') = None \<and>
                 files e' (lockPath (lockManager m)) = None) \<and>
              ((OpReadFile, lockPath (lockManager m)) \<in> deny e \<or>
               (OpRemove, lockPath (lockManager m)) \<in> deny e \<longrightarrow>
                 lock (lockManager m') = lock lm1 \<and>
                 files e' (lockPath (lockManager m)) = files e1 (lockPath (lockManager m))))"
proof -
  let ?lp = "lockPath (lockManager m)"
  from Lock_success[OF assms(1)] obtain l where
    lm1: "lm1 = (lockManager m)\<lparr>lock := Some l\<rparr>" and
    f1: "files e1 = (files e)(?lp \<mapsto> LockDoc l)" and
    d1: "deny e1 = deny e"
    by blast
  have held: "lock lm1 = Some l" and lp: "lockPath lm1 = ?lp"
    by (simp_all add: lm1)
  have lf: "files e1 ?lp = Some (LockDoc l)"
    by (simp add: f1)
  have ml: "Manager_Load m inp lineage e =
      (case Unlock lm1 e1 of (r, lm2, e2) \<Rightarrow> (Inl err, m\<lparr>lockManager := lm2\<rparr>, e2))"
    using assms by (simp add: Manager_Load_def)
  show ?thesis
  proof (cases "(OpReadFile, ?lp) \<in> deny e")
    case True
    then have "Unlock lm1 e1 = (Some ErrReadLockBeforeUnlock, lm1, e1)"
      by (simp add: Unlock_def readLock_def held lp d1)
    with True held lf show ?thesis
      by (simp add: ml)
  next
    case readable: False
    show ?thesis
    proof (cases "(OpRemove, ?lp) \<in> deny e")
      case True
      with readable have "Unlock lm1 e1 = (Some ErrRemoveLock, lm1, e1)"
        by (simp add: Unlock_def readLock_def os_Remove_def held lp d1 lf)
      with True held lf show ?thesis
        by (simp add: ml)
    next
      case False
      with readable have "Unlock lm1 e1 =
          (None, lm1\<lparr>lock := None\<rparr>, e1\<lparr>files := (files e1)(?lp := None)\<rparr>)"
        by (simp add: Unlock_def readLock_def os_Remove_def held lp d1 lf)
      with False readable held lf show ?thesis
        by (simp add: ml)
    qed
  qed
qed

theorem Manager_Load_unlock_on_load_failure_witness:
  "fst (Lock (lockManager (NewManager ''builder-state.json'')) ''build'' lock_in disk_corrupt) = None \<and>
   Load ''builder-state.json'' disk_corrupt = Inl ErrDecodeState \<and>
   fst (Manager_Load (NewManager ''builder-state.json'') lock_in ''lineage-2'' disk_corrupt)
     = Inl ErrDecodeState \<and>
   files (snd (snd (Manager_Load (NewManager ''builder-state.json'') lock_in ''lineage-2''
      disk_corrupt))) ''builder-state.json.lock'' = None \<and>
   lock (lockManager (fst (snd (Manager_Load (NewManager ''builder-state.json'') lock_in
      ''lineage-2'' disk_corrupt)))) = None \<and>
   fst (Manager_Load (NewManager ''builder-state.json'') lock_in ''lineage-2''
      disk_corrupt_no_remove) = Inl ErrDecodeState \<and>
   map_option Lock.ID (lock (lockManager (fst (snd (Manager_Load
      (NewManager ''builder-state.json'') lock_in ''lineage-2'' disk_corrupt_no_remove)))))
     = Some ''lock-1''"
proof -
  let ?m = "NewManager ''builder-state.json''"
  let ?lock = "\<lambda>d. Lock (lockManager ?m) ''build'' lock_in d"
  have p: "lockPath (lockManager ?m) = ''builder-state.json.lock''"
    "Manager.statePath ?m = ''builder-state.json''"
    by (simp_all add: NewManager_def NewLockManager_def)
  have a: "fst (?lock disk_corrupt) = None" "fst (?lock disk_corrupt_no_remove) = None"
    "map_option Lock.ID (lock (fst (snd (?lock disk_corrupt_no_remove)))) = Some ''lock-1''"
    by (simp_all add: Lock_def NewManager_def NewLockManager_def lock_in_def
          disk_corrupt_def disk_corrupt_no_remove_def os_Stat_def filepath_Dir_here
          os_MkdirAll_here Let_def)
  have b: "Load (Manager.statePath ?m) (snd (snd (?lock disk_corrupt))) = Inl ErrDecodeState"
    "Load (Manager.statePath ?m) (snd (snd (?lock disk_corrupt_no_remove))) = Inl ErrDecodeState"
    by (simp_all add: Load_def Lock_def NewManager_def NewLockManager_def lock_in_def
          disk_corrupt_def disk_corrupt_no_remove_def os_Stat_def filepath_Dir_here
          os_MkdirAll_here Let_def)
  have c: "(OpReadFile, lockPath (lockManager ?m)) \<notin> deny disk_corrupt"
    "(OpRemove, lockPath (lockManager ?m)) \<notin> deny disk_corrupt"
    "(OpRemove, lockPath (lockManager ?m)) \<in> deny disk_corrupt_no_remove"
    by (simp_all add: p disk_corrupt_def disk_corrupt_no_remove_def)
  have d: "Load ''builder-state.json'' disk_corrupt = Inl ErrDecodeState"
    by (simp add: Load_def disk_corrupt_def)
  have l1: "?lock disk_corrupt =
      (None, fst (snd (?lock disk_corrupt)), snd (snd (?lock disk_corrupt)))"
    using a(1) by (metis prod.collapse)
  have l2: "?lock disk_corrupt_no_remove =
      (None, fst (snd (?lock disk_corrupt_no_remove)), snd (snd (?lock disk_corrupt_no_remove)))"
    using a(2) by (metis prod.collapse)
  from Manager_Load_unlock_on_load_failure[OF l1 b(1), of "''lineage-2''"]
       Manager_Load_unlock_on_load_failure[OF l2 b(2), of "''lineage-2''"]
       a c d p
  show ?thesis
    by (auto simp: split_beta)
qed

end
